theory Spec2Isabelle
  imports Main "HOL-Library.Word"
begin

section \<open>Go error values\<close>

text \<open>
  A non-nil Go \<^verbatim>\<open>error\<close> as the library can build it: a leaf made by
  \<^verbatim>\<open>errors.New\<close> or by \<^verbatim>\<open>fmt.Errorf\<close> without \<^verbatim>\<open>%w\<close>
  (message only), the wrapper made by \<^verbatim>\<open>fmt.Errorf\<close> with one \<^verbatim>\<open>%w\<close> (its
  formatted message and the wrapped error), the value of \<^verbatim>\<open>errors.Join\<close> (the
  non-nil errors, in order), and the package's own \<^verbatim>\<open>*validation.Error\<close>
  (message and optional cause). The interface value \<^verbatim>\<open>error\<close> is an option:
  \<open>None\<close> is \<^verbatim>\<open>nil\<close>. Pointer identity of errors is read as equality of values.
\<close>

datatype err =
    Foreign string
  | FmtWrap string err
  | Joined "err list"
  | VError string "err option"

type_synonym error = "err option"

text \<open>\<^verbatim>\<open>strings.Join(parts, "\n")\<close>, as \<^verbatim>\<open>errors.Join\<close>'s message uses it.\<close>

fun join_lines :: "string list \<Rightarrow> string" where
  "join_lines [] = []"
| "join_lines [m] = m"
| "join_lines (m # ms) = m @ [CHR 0x0A] @ join_lines ms"

text \<open>The method \<^verbatim>\<open>Error()\<close> of each kind of error.\<close>

fun Error :: "err \<Rightarrow> string" where
  "Error (Foreign m) = m"
| "Error (FmtWrap m e) = m"
| "Error (Joined es) = join_lines (map Error es)"
| "Error (VError m c) = m"

text \<open>
  \<^verbatim>\<open>errors.Join(errs...)\<close>: nil values are discarded; the result is nil when no
  non-nil error is left, and a join of the others otherwise.
\<close>

definition errors_Join :: "error list \<Rightarrow> error" where
  "errors_Join errs =
     (case List.map_filter id errs of [] \<Rightarrow> None | e # es \<Rightarrow> Some (Joined (e # es)))"

text \<open>
  \<^verbatim>\<open>fmt.Errorf(prefix + "%w", operand)\<close>, the only shape of wrapping format the
  package uses. A nil operand is no error to wrap: the verb prints
  \<^verbatim>\<open>%!w(<nil>)\<close> and the result unwraps to nothing.
\<close>

definition fmt_Errorf_w :: "string \<Rightarrow> error \<Rightarrow> err" where
  "fmt_Errorf_w prefix operand =
     (case operand of
        None \<Rightarrow> Foreign (prefix @ ''%!w(<nil>)'')
      | Some e \<Rightarrow> FmtWrap (prefix @ Error e) e)"

text \<open>
  \<^verbatim>\<open>errors.Unwrap\<close>: the result of the error's \<^verbatim>\<open>Unwrap() error\<close> method, nil
  when it has none (a join only has \<^verbatim>\<open>Unwrap() []error\<close>).
\<close>

fun errors_Unwrap :: "error \<Rightarrow> error" where
  "errors_Unwrap None = None"
| "errors_Unwrap (Some (Foreign m)) = None"
| "errors_Unwrap (Some (FmtWrap m e)) = Some e"
| "errors_Unwrap (Some (Joined es)) = None"
| "errors_Unwrap (Some (VError m c)) = c"

section \<open>The validator abstraction and the sequential runner\<close>

text \<open>
  \<^verbatim>\<open>type Validator[T any] func(T) error\<close>. A Go function value may be a closure
  over variables it updates (a call counter, say), so a validator takes the state of
  those variables and returns it with its result; a pure validator returns the state
  it was given.
\<close>

type_synonym ('a, 's) Validator = "'a \<Rightarrow> 's \<Rightarrow> error \<times> 's"

fun Validate :: "'a \<Rightarrow> ('a, 's) Validator list \<Rightarrow> 's \<Rightarrow> error \<times> 's" where
  "Validate v [] s = (None, s)"
| "Validate v (validator # validators) s =
     (case validator v s of
        (Some e, s') \<Rightarrow> (Some e, s')
      | (None, s') \<Rightarrow> Validate v validators s')"

section \<open>The error model\<close>

text \<open>
  Modelled from the spec: the file that declares \<^verbatim>\<open>validation.Error\<close>,
  \<^verbatim>\<open>NewValidationError\<close>, \<^verbatim>\<open>WrapError\<close> and \<^verbatim>\<open>IsValidationError\<close> is
  not among the sources; only its callers and its tests are. Section 4.1 of the spec:
  \<^verbatim>\<open>newError(message)\<close> always produces a validation error; \<^verbatim>\<open>wrap(err)\<close>
  returns nil for nil, returns an error that already is a validation error unchanged,
  and otherwise wraps it, keeping the message of \<^verbatim>\<open>err\<close> as the outer message and
  \<^verbatim>\<open>err\<close> as the unwrap target; \<^verbatim>\<open>isValidationError(err)\<close> is false for nil
  and true for any error constructed or wrapped by the model, also when it is reached
  through a cause chain or a join.
\<close>

definition NewValidationError :: "string \<Rightarrow> error" where
  "NewValidationError message = Some (VError message None)"

fun is_validation_err :: "err \<Rightarrow> bool" where
  "is_validation_err (Foreign m) = False"
| "is_validation_err (FmtWrap m e) = is_validation_err e"
| "is_validation_err (Joined es) = list_ex is_validation_err es"
| "is_validation_err (VError m c) = True"

definition IsValidationError :: "error \<Rightarrow> bool" where
  "IsValidationError err = (case err of None \<Rightarrow> False | Some e \<Rightarrow> is_validation_err e)"

definition WrapError :: "error \<Rightarrow> error" where
  "WrapError err =
     (case err of
        None \<Rightarrow> None
      | Some e \<Rightarrow> if IsValidationError (Some e) then Some e else Some (VError (Error e) (Some e)))"

section \<open>Combinators\<close>

definition WithMessage :: "('a, 's) Validator \<Rightarrow> string \<Rightarrow> ('a, 's) Validator" where
  "WithMessage validator message v s =
     (case validator v s of
        (Some e, s') \<Rightarrow> (NewValidationError message, s')
      | (None, s') \<Rightarrow> (None, s'))"

text \<open>
  The loop of \<^verbatim>\<open>Or\<close>: \<open>None\<close> when a validator passed (the function returned
  nil from inside the loop), the collected \<^verbatim>\<open>errs\<close> when the loop ran to its end.
\<close>

fun Or_loop :: "('a, 's) Validator list \<Rightarrow> 'a \<Rightarrow> err list \<Rightarrow> 's \<Rightarrow> err list option \<times> 's" where
  "Or_loop [] v errs s = (Some errs, s)"
| "Or_loop (validator # validators) v errs s =
     (case validator v s of
        (None, s') \<Rightarrow> (None, s')
      | (Some e, s') \<Rightarrow> Or_loop validators v (errs @ [e]) s')"

definition Or :: "('a, 's) Validator list \<Rightarrow> ('a, 's) Validator" where
  "Or validators v s =
     (case Or_loop validators v [] s of
        (None, s') \<Rightarrow> (None, s')
      | (Some errs, s') \<Rightarrow>
          if length errs = 1 then (Some (errs ! 0), s')
          else (WrapError (Some (fmt_Errorf_w ''all validators failed: ''
                                  (errors_Join (map Some errs)))), s'))"

definition Not :: "('a, 's) Validator \<Rightarrow> ('a, 's) Validator" where
  "Not validator v s =
     (case validator v s of
        (Some e, s') \<Rightarrow> (None, s')
      | (None, s') \<Rightarrow> (NewValidationError ''validation should have failed but passed'', s'))"

section \<open>Collections\<close>

text \<open>The verb \<^verbatim>\<open>%d\<close> on a slice index: its decimal digits.\<close>

fun show_nat :: "nat \<Rightarrow> string" where
  "show_nat n =
     (if n < 10 then [''0123456789'' ! n]
      else show_nat (n div 10) @ [''0123456789'' ! (n mod 10)])"

declare show_nat.simps [simp del]

text \<open>
  The loop of \<^verbatim>\<open>Each\<close>, from index \<open>i\<close> on, with the errors appended so far.
\<close>

fun Each_loop :: "('a, 's) Validator \<Rightarrow> nat \<Rightarrow> 'a list \<Rightarrow> err list \<Rightarrow> 's \<Rightarrow> err list \<times> 's" where
  "Each_loop elementValidator i [] errs s = (errs, s)"
| "Each_loop elementValidator i (v # values) errs s =
     (case elementValidator v s of
        (Some e, s') \<Rightarrow>
          Each_loop elementValidator (Suc i) values
            (errs @ [fmt_Errorf_w (''index '' @ show_nat i @ '': '') (Some e)]) s'
      | (None, s') \<Rightarrow> Each_loop elementValidator (Suc i) values errs s')"

definition Each :: "('a, 's) Validator \<Rightarrow> ('a list, 's) Validator" where
  "Each elementValidator values s =
     (case Each_loop elementValidator 0 values [] s of
        (errs, s') \<Rightarrow> (errors_Join (map Some errs), s'))"

section \<open>Keyed maps\<close>

record ('v, 's) MapKeyRule =
  key :: string
  required :: bool
  validators :: "('v, 's) Validator list"

definition MapKey :: "string \<Rightarrow> bool \<Rightarrow> ('v, 's) Validator list \<Rightarrow> ('v, 's) MapKeyRule" where
  "MapKey k r vs = \<lparr>key = k, required = r, validators = vs\<rparr>"

text \<open>
  A Go map is read here as the list of its entries in the order in which this run of
  \<^verbatim>\<open>range\<close> visits them (Go leaves that order open, so a property has to hold for
  every list); \<^verbatim>\<open>m[k]\<close> is \<open>map_of m k\<close>. The verb \<^verbatim>\<open>%q\<close> prints a key
  through \<^verbatim>\<open>strconv.Quote\<close>, whose escaping table belongs to the standard library:
  it is the parameter \<open>quote\<close>.
\<close>

text \<open>The inner loop over \<^verbatim>\<open>rule.validators\<close>, for a key that exists.\<close>

fun key_validators_loop ::
  "(string \<Rightarrow> string) \<Rightarrow> string \<Rightarrow> 'v \<Rightarrow> ('v, 's) Validator list \<Rightarrow> 's \<Rightarrow> error \<times> 's" where
  "key_validators_loop quote k val [] s = (None, s)"
| "key_validators_loop quote k val (validator # rest) s =
     (case validator val s of
        (Some e, s') \<Rightarrow> (Some (fmt_Errorf_w (''key '' @ quote k @ '': '') (Some e)), s')
      | (None, s') \<Rightarrow> key_validators_loop quote k val rest s')"

text \<open>
  The loop over the rules. \<^verbatim>\<open>validated\<close> is the \<^verbatim>\<open>map[string]bool\<close>, a
  missing key reading as false. The result is the error returned from inside the loop
  (or none), the map \<^verbatim>\<open>validated\<close> and the state.
\<close>

fun rules_loop ::
  "(string \<Rightarrow> string) \<Rightarrow> (string \<times> 'v) list \<Rightarrow> ('v, 's) MapKeyRule list \<Rightarrow>
   (string \<Rightarrow> bool) \<Rightarrow> 's \<Rightarrow> error \<times> (string \<Rightarrow> bool) \<times> 's" where
  "rules_loop quote m [] validated s = (None, validated, s)"
| "rules_loop quote m (rule # rules) validated s =
     (let validated' = validated(key rule := True);
          lookup = map_of m (key rule);
          exists = (lookup \<noteq> None)
      in if \<not> exists \<and> required rule
         then (Some (Foreign (''key '' @ quote (key rule) @ '' is required'')), validated', s)
         else if exists
         then (case key_validators_loop quote (key rule) (the lookup) (validators rule) s of
                 (Some e, s') \<Rightarrow> (Some e, validated', s')
               | (None, s') \<Rightarrow> rules_loop quote m rules validated' s')
         else rules_loop quote m rules validated' s)"

text \<open>The scan for a key outside the rules, over the keys as \<^verbatim>\<open>range\<close> gives them.\<close>

fun extra_keys_loop :: "(string \<Rightarrow> string) \<Rightarrow> string list \<Rightarrow> (string \<Rightarrow> bool) \<Rightarrow> error" where
  "extra_keys_loop quote [] validated = None"
| "extra_keys_loop quote (k # ks) validated =
     (if \<not> validated k then Some (Foreign (''key '' @ quote k @ '' not expected''))
      else extra_keys_loop quote ks validated)"

definition ValidateStringMap ::
  "(string \<Rightarrow> string) \<Rightarrow> (string \<times> string) list \<Rightarrow> bool \<Rightarrow> (string, 's) MapKeyRule list \<Rightarrow>
   's \<Rightarrow> error \<times> 's" where
  "ValidateStringMap quote m allowExtra rules s =
     (case rules_loop quote m rules (\<lambda>k. False) s of
        (Some e, validated, s') \<Rightarrow> (Some e, s')
      | (None, validated, s') \<Rightarrow>
          if \<not> allowExtra then (extra_keys_loop quote (map fst m) validated, s')
          else (None, s'))"

section \<open>Dynamically typed values and the type-adaptation shims\<close>

text \<open>
  A value of type \<^verbatim>\<open>any\<close> by its dynamic type: nil, \<^verbatim>\<open>string\<close>,
  \<^verbatim>\<open>int\<close> and \<^verbatim>\<open>int64\<close> (both 64 bits wide, as on the 64-bit platforms),
  \<^verbatim>\<open>float64\<close> and \<^verbatim>\<open>float32\<close> (their IEEE 754 bit patterns),
  \<^verbatim>\<open>bool\<close>, and a value of any other dynamic type, of which only the type's name
  is kept (\<^verbatim>\<open>int32\<close>, \<^verbatim>\<open>[]byte\<close>, a struct, ...).
\<close>

type_synonym float64 = "64 word"
type_synonym float32 = "32 word"

datatype any =
    AnyNil
  | AnyString string
  | AnyInt "64 word"
  | AnyInt64 "64 word"
  | AnyFloat64 float64
  | AnyFloat32 float32
  | AnyBool bool
  | AnyOther string

text \<open>
  Go's numeric conversions between floating-point and integer types round and
  truncate as the platform does (out of range, the result is left to the
  implementation): the shims take them as parameters. \<^verbatim>\<open>int(val)\<close> on an
  \<^verbatim>\<open>int64\<close> is the identity on 64 bits.
\<close>

record conversions =
  int_of_float64 :: "float64 \<Rightarrow> 64 word"
  float64_of_float32 :: "float32 \<Rightarrow> float64"
  float64_of_int :: "64 word \<Rightarrow> float64"

definition StringValidator :: "(string, 's) Validator \<Rightarrow> (any, 's) Validator" where
  "StringValidator validator v s =
     (case v of
        AnyString str \<Rightarrow> validator str s
      | _ \<Rightarrow> (Some (Foreign ''must be a string''), s))"

definition IntValidator :: "conversions \<Rightarrow> (64 word, 's) Validator \<Rightarrow> (any, 's) Validator" where
  "IntValidator cv validator v s =
     (case v of
        AnyInt val \<Rightarrow> validator val s
      | AnyFloat64 val \<Rightarrow> validator (int_of_float64 cv val) s
      | AnyInt64 val \<Rightarrow> validator val s
      | _ \<Rightarrow> (Some (Foreign ''must be a number''), s))"

definition FloatValidator :: "conversions \<Rightarrow> (float64, 's) Validator \<Rightarrow> (any, 's) Validator" where
  "FloatValidator cv validator v s =
     (case v of
        AnyFloat64 val \<Rightarrow> validator val s
      | AnyFloat32 val \<Rightarrow> validator (float64_of_float32 cv val) s
      | AnyInt val \<Rightarrow> validator (float64_of_int cv val) s
      | AnyInt64 val \<Rightarrow> validator (float64_of_int cv val) s
      | _ \<Rightarrow> (Some (Foreign ''must be a number''), s))"

definition BoolValidator :: "(bool, 's) Validator \<Rightarrow> (any, 's) Validator" where
  "BoolValidator validator v s =
     (case v of
        AnyBool val \<Rightarrow> validator val s
      | _ \<Rightarrow> (Some (Foreign ''must be a boolean''), s))"

text \<open>
  The body of \<^verbatim>\<open>ValidateAnyMap\<close> is that of \<^verbatim>\<open>ValidateStringMap\<close> word for
  word, on \<^verbatim>\<open>map[string]any\<close>: the two share the loops above.
\<close>

definition ValidateAnyMap ::
  "(string \<Rightarrow> string) \<Rightarrow> (string \<times> any) list \<Rightarrow> bool \<Rightarrow> (any, 's) MapKeyRule list \<Rightarrow>
   's \<Rightarrow> error \<times> 's" where
  "ValidateAnyMap quote m allowExtra rules s =
     (case rules_loop quote m rules (\<lambda>k. False) s of
        (Some e, validated, s') \<Rightarrow> (Some e, s')
      | (None, validated, s') \<Rightarrow>
          if \<not> allowExtra then (extra_keys_loop quote (map fst m) validated, s')
          else (None, s'))"

section \<open>Vocabulary of the properties\<close>

text \<open>
  What invoking every call of a list does, one after the other and whatever each
  returns: the results in order and the state at the end. A validator applied to its
  input is such a call. The runners are compared with it.
\<close>

fun invoke_all :: "('s \<Rightarrow> error \<times> 's) list \<Rightarrow> 's \<Rightarrow> error list \<times> 's" where
  "invoke_all [] s = ([], s)"
| "invoke_all (call # calls) s =
     (case call s of (r, s') \<Rightarrow>
        (case invoke_all calls s' of (rs, s'') \<Rightarrow> (r # rs, s'')))"

text \<open>The errors that repeated \<^verbatim>\<open>errors.Unwrap\<close> reaches from an error.\<close>

fun causes :: "err \<Rightarrow> err list" where
  "causes (Foreign m) = []"
| "causes (FmtWrap m e) = e # causes e"
| "causes (Joined es) = []"
| "causes (VError m None) = []"
| "causes (VError m (Some e)) = e # causes e"

text \<open>
  A stub validator for worked examples: it appends its number to a call log (the
  state) and returns a fixed result.
\<close>

definition logged :: "nat \<Rightarrow> error \<Rightarrow> ('a, nat list) Validator" where
  "logged i r = (\<lambda>v log. (r, log @ [i]))"

text \<open>
  \<^verbatim>\<open>strconv.Quote\<close> on a key of printable ASCII characters without double quote
  and backslash: the key between double quotes. Used in worked examples only.
\<close>

definition quote_ascii :: "string \<Rightarrow> string" where
  "quote_ascii k = [CHR 0x22] @ k @ [CHR 0x22]"

text \<open>
  A failure of the element at index \<open>i\<close> as \<^verbatim>\<open>Each\<close> tags it: the message
  \<^verbatim>\<open>index i: \<close> before the failure's own, the failure as unwrap target.
\<close>

definition index_error :: "nat \<Rightarrow> err \<Rightarrow> err" where
  "index_error i e = FmtWrap (''index '' @ show_nat i @ '': '' @ Error e) e"

text \<open>The tagged failures among the results of the elements from index \<open>i\<close> on.\<close>

fun tagged_failures :: "nat \<Rightarrow> error list \<Rightarrow> err list" where
  "tagged_failures i [] = []"
| "tagged_failures i (None # rs) = tagged_failures (Suc i) rs"
| "tagged_failures i (Some e # rs) = index_error i e # tagged_failures (Suc i) rs"

text \<open>
  What checking one rule of a keyed map amounts to, in the words of the spec: a
  missing key fails when the rule requires it and passes otherwise, without a
  validator being invoked; a key that is present has the rule's validators run by the
  sequential runner on its value, a failure coming back with the key in front of its
  message and the failure as unwrap target.
\<close>

definition check_rule ::
  "(string \<Rightarrow> string) \<Rightarrow> (string \<times> 'v) list \<Rightarrow> ('v, 's) MapKeyRule \<Rightarrow> 's \<Rightarrow> error \<times> 's" where
  "check_rule quote m rule s =
     (case map_of m (key rule) of
        None \<Rightarrow>
          (if required rule then Some (Foreign (''key '' @ quote (key rule) @ '' is required''))
           else None, s)
      | Some val \<Rightarrow>
          (case Validate val (validators rule) s of
             (None, s') \<Rightarrow> (None, s')
           | (Some e, s') \<Rightarrow>
               (Some (FmtWrap (''key '' @ quote (key rule) @ '': '' @ Error e) e), s')))"

text \<open>
  The contract of a keyed-map validator. Whenever the rules before some rule all
  pass when checked one after the other: if that rule's key is absent and required,
  the validator returns the "is required" error naming the key, in the state reached
  so far; if the key is present and the sequential runner fails on its value, the
  validator returns that failure behind the key's name. Whenever all rules pass:
  every rule has been checked; with extra keys allowed, or every key of the map being
  the key of a rule, the validator returns nil; otherwise it returns the "not
  expected" error naming a key of the map that no rule has.
\<close>

definition keyed_map_contract ::
  "((string \<Rightarrow> string) \<Rightarrow> (string \<times> 'v) list \<Rightarrow> bool \<Rightarrow> ('v, 's) MapKeyRule list \<Rightarrow>
    's \<Rightarrow> error \<times> 's) \<Rightarrow> bool" where
  "keyed_map_contract validate_map \<longleftrightarrow>
     (\<forall>quote m allowExtra rules s.
        (\<forall>pre rule post rs s1.
           rules = pre @ rule # post \<and>
           invoke_all (map (check_rule quote m) pre) s = (rs, s1) \<and> (\<forall>r\<in>set rs. r = None)
           \<longrightarrow>
             (map_of m (key rule) = None \<and> required rule \<longrightarrow>
                validate_map quote m allowExtra rules s
                  = (Some (Foreign (''key '' @ quote (key rule) @ '' is required'')), s1))
           \<and> (\<forall>val e s2.
                map_of m (key rule) = Some val \<and>
                Validate val (validators rule) s1 = (Some e, s2) \<longrightarrow>
                validate_map quote m allowExtra rules s
                  = (Some (FmtWrap (''key '' @ quote (key rule) @ '': '' @ Error e) e), s2)))
      \<and> (\<forall>rs s'.
           invoke_all (map (check_rule quote m) rules) s = (rs, s') \<and> (\<forall>r\<in>set rs. r = None)
           \<longrightarrow>
             snd (validate_map quote m allowExtra rules s) = s'
           \<and> (allowExtra \<or> fst ` set m \<subseteq> key ` set rules \<longrightarrow>
                fst (validate_map quote m allowExtra rules s) = None)
           \<and> (\<not> allowExtra \<and> \<not> fst ` set m \<subseteq> key ` set rules \<longrightarrow>
                (\<exists>k. k \<in> fst ` set m \<and> k \<notin> key ` set rules \<and>
                     fst (validate_map quote m allowExtra rules s)
                       = Some (Foreign (''key '' @ quote k @ '' not expected''))))))"

text \<open>
  \<^verbatim>\<open>Required[T]\<close>, a leaf validator of the package that returns a plain
  \<^verbatim>\<open>fmt.Errorf\<close> error; the zero value of \<^verbatim>\<open>T\<close> is its first argument.
\<close>

definition Required :: "'a \<Rightarrow> ('a, 's) Validator" where
  "Required zero v s = (if v = zero then Some (Foreign ''required'') else None, s)"

text \<open>
  A stub for worked examples: it rejects a string shorter than three bytes and counts
  its calls in the state.
\<close>

definition too_short :: "(string, nat) Validator" where
  "too_short v calls =
     (if length v < 3 then Some (Foreign ''must be at least 3 characters'') else None, Suc calls)"

text \<open>
  Conversions for worked examples: right on the one \<^verbatim>\<open>float64\<close> the examples
  convert (the bit pattern of 30.0 becomes the integer 30), zero elsewhere.
\<close>

definition example_conversions :: conversions where
  "example_conversions =
     \<lparr>int_of_float64 = (\<lambda>f. if f = 0x403E000000000000 then 30 else 0),
      float64_of_float32 = (\<lambda>f. 0), float64_of_int = (\<lambda>n. 0)\<rparr>"

text \<open>
  A stub for worked examples: it rejects an integer above 120 and logs its call.
\<close>

definition at_most_120 :: "(64 word, nat list) Validator" where
  "at_most_120 n log =
     (if 120 < sint n then Some (Foreign ''must be between 0 and 120'') else None, log @ [0])"

text \<open>
  Follows the spec's words, not the source (sections 2 and 4.5): the runtime
  representations that narrow to an integer, losslessly or by convention. The spec
  names "a whole-valued floating-point number narrowed to an integer" and "a value
  that arrived as a floating-point or 64-bit variant"; Go converts every one of the
  four numeric kinds below to \<^verbatim>\<open>int\<close>.
\<close>

definition spec_narrows_to_int :: "any \<Rightarrow> bool" where
  "spec_narrows_to_int v =
     (case v of AnyInt n \<Rightarrow> True | AnyInt64 n \<Rightarrow> True | AnyFloat64 f \<Rightarrow> True
      | AnyFloat32 f \<Rightarrow> True | _ \<Rightarrow> False)"

section \<open>The sequential runner\<close>

lemma Validate_prefix:
  "invoke_all (map (\<lambda>validator. validator v) pre) s = (rs, s1) \<Longrightarrow> \<forall>r\<in>set rs. r = None \<Longrightarrow>
   Validate v (pre @ post) s = Validate v post s1"
  by (induction pre arbitrary: s rs) (auto split: prod.splits option.splits)

lemma Validate_None_iff:
  "fst (Validate v vs s) = None \<longleftrightarrow>
   (\<forall>r\<in>set (fst (invoke_all (map (\<lambda>validator. validator v) vs) s)). r = None)"
  by (induction vs arbitrary: s) (auto split: prod.splits option.splits)

lemma Validate_None_state:
  "fst (Validate v vs s) = None \<Longrightarrow>
   snd (Validate v vs s) = snd (invoke_all (map (\<lambda>validator. validator v) vs) s)"
  by (induction vs arbitrary: s) (auto split: prod.splits option.splits)

lemma Validate_Some_split:
  "Validate v vs s = (Some e, s2) \<Longrightarrow>
   \<exists>pre validator post rs s1.
     vs = pre @ validator # post \<and>
     invoke_all (map (\<lambda>validator. validator v) pre) s = (rs, s1) \<and>
     (\<forall>r\<in>set rs. r = None) \<and> validator v s1 = (Some e, s2)"
proof (induction vs arbitrary: s)
  case Nil
  then show ?case by simp
next
  case (Cons x xs)
  obtain r s0 where x: "x v s = (r, s0)" by (cases "x v s")
  show ?case
  proof (cases r)
    case None
    with Cons.prems x have "Validate v xs s0 = (Some e, s2)" by simp
    from Cons.IH[OF this] obtain pre validator post rs s1 where
      split: "xs = pre @ validator # post"
      and run: "invoke_all (map (\<lambda>validator. validator v) pre) s0 = (rs, s1)"
      and pass: "\<forall>r\<in>set rs. r = None" and fail: "validator v s1 = (Some e, s2)"
      by blast
    have "x # xs = (x # pre) @ validator # post" using split by simp
    moreover have "invoke_all (map (\<lambda>validator. validator v) (x # pre)) s = (None # rs, s1)"
      using x None run by simp
    moreover have "\<forall>r\<in>set (None # rs). r = None" using pass by simp
    ultimately show ?thesis using fail by blast
  next
    case (Some e')
    with Cons.prems x have "x v s = (Some e, s2)" by simp
    moreover have "x # xs = [] @ x # xs" by simp
    moreover have "invoke_all (map (\<lambda>validator. validator v) []) s = ([], s)" by simp
    moreover have "\<forall>r\<in>set ([] :: error list). r = None" by simp
    ultimately show ?thesis by blast
  qed
qed

text \<open>
  C1. \<^verbatim>\<open>Validate\<close> applies the validators in the order given. Whenever the
  validators before some validator all pass when invoked one after the other and that
  validator fails, \<^verbatim>\<open>Validate\<close> returns exactly that validator's error, in the
  state that validator left: no later validator has been invoked. Every error that
  \<^verbatim>\<open>Validate\<close> returns arises so. It returns nil if and only if every validator
  passes, and then every validator has been invoked once, in order.
\<close>

theorem Validate_first_failure:
  "(\<forall>pre validator post rs s1 e s2.
      vs = pre @ validator # post \<and>
      invoke_all (map (\<lambda>validator. validator v) pre) s = (rs, s1) \<and>
      (\<forall>r\<in>set rs. r = None) \<and> validator v s1 = (Some e, s2)
      \<longrightarrow> Validate v vs s = (Some e, s2))
   \<and> (\<forall>e s2.
        Validate v vs s = (Some e, s2)
        \<longrightarrow> (\<exists>pre validator post rs s1.
               vs = pre @ validator # post \<and>
               invoke_all (map (\<lambda>validator. validator v) pre) s = (rs, s1) \<and>
               (\<forall>r\<in>set rs. r = None) \<and> validator v s1 = (Some e, s2)))
   \<and> (fst (Validate v vs s) = None
        \<longleftrightarrow> (\<forall>r\<in>set (fst (invoke_all (map (\<lambda>validator. validator v) vs) s)). r = None))
   \<and> (fst (Validate v vs s) = None
        \<longrightarrow> snd (Validate v vs s)
             = snd (invoke_all (map (\<lambda>validator. validator v) vs) s))"
proof (intro conjI allI impI)
  fix pre validator post rs s1 e s2
  assume h: "vs = pre @ validator # post \<and>
      invoke_all (map (\<lambda>validator. validator v) pre) s = (rs, s1) \<and>
      (\<forall>r\<in>set rs. r = None) \<and> validator v s1 = (Some e, s2)"
  then have "Validate v vs s = Validate v (validator # post) s1"
    using Validate_prefix[of v pre s rs s1 "validator # post"] by simp
  with h show "Validate v vs s = (Some e, s2)" by simp
next
  fix e s2
  assume "Validate v vs s = (Some e, s2)"
  then show "\<exists>pre validator post rs s1.
               vs = pre @ validator # post \<and>
               invoke_all (map (\<lambda>validator. validator v) pre) s = (rs, s1) \<and>
               (\<forall>r\<in>set rs. r = None) \<and> validator v s1 = (Some e, s2)"
    by (rule Validate_Some_split)
next
  show "fst (Validate v vs s) = None
        \<longleftrightarrow> (\<forall>r\<in>set (fst (invoke_all (map (\<lambda>validator. validator v) vs) s)). r = None)"
    by (rule Validate_None_iff)
next
  assume "fst (Validate v vs s) = None"
  then show "snd (Validate v vs s)
             = snd (invoke_all (map (\<lambda>validator. validator v) vs) s)"
    by (rule Validate_None_state)
qed

text \<open>
  Three validators of which the second fails: its error comes back and the call log
  holds the first two only. Two passing validators: no error.
\<close>

theorem Validate_first_failure_witness:
  "Validate (7::nat) [logged 0 None, logged 1 (Some (Foreign ''short'')), logged 2 (Some (Foreign ''late''))] []
     = (Some (Foreign ''short''), [0, 1])
   \<and> fst (Validate (7::nat) [logged 0 None, logged 1 None] []) = None"
proof -
  let ?vs = "[logged 0 None, logged 1 (Some (Foreign ''short'')), logged 2 (Some (Foreign ''late''))]
               :: (nat, nat list) Validator list"
  have h: "?vs = [logged 0 None] @ logged 1 (Some (Foreign ''short'')) # [logged 2 (Some (Foreign ''late''))] \<and>
      invoke_all (map (\<lambda>validator. validator (7::nat)) [logged 0 None]) [] = ([None], [0]) \<and>
      (\<forall>r\<in>set [None :: error]. r = None) \<and>
      logged 1 (Some (Foreign ''short'')) (7::nat) [0] = (Some (Foreign ''short''), [0, 1])"
    by (simp add: logged_def)
  note first_failure = Validate_first_failure[THEN conjunct1,
      THEN spec[where x = "[logged 0 None]"], THEN spec[where x = "logged 1 (Some (Foreign ''short''))"],
      THEN spec[where x = "[logged 2 (Some (Foreign ''late''))]"], THEN spec[where x = "[None]"],
      THEN spec[where x = "[0]"], THEN spec[where x = "Foreign ''short''"],
      THEN spec[where x = "[0, 1]"], THEN mp]
  have first: "Validate (7::nat) ?vs [] = (Some (Foreign ''short''), [0, 1])"
    by (rule first_failure) (rule h)
  have e: "\<forall>r\<in>set (fst (invoke_all (map (\<lambda>validator. validator (7::nat))
              [logged 0 None, logged 1 None]) [])). r = None"
    by (simp add: logged_def)
  have second: "fst (Validate (7::nat) [logged 0 None, logged 1 None] []) = None"
    by (rule Validate_first_failure[THEN conjunct2, THEN conjunct2, THEN conjunct1, THEN iffD2]) (rule e)
  from first second show ?thesis by (rule conjI)
qed

section \<open>Facts about the error values\<close>

lemma invoke_all_length: "invoke_all calls s = (rs, s') \<Longrightarrow> length rs = length calls"
  by (induction calls arbitrary: s rs) (auto split: prod.splits)

lemma map_filter_Some: "List.map_filter id (map Some xs) = xs"
  by (induction xs) simp_all

lemma errors_Join_Some: "es \<noteq> [] \<Longrightarrow> errors_Join (map Some es) = Some (Joined es)"
  by (cases es) (simp_all add: errors_Join_def map_filter_Some)

lemma errors_Join_Nil: "errors_Join (map Some []) = None"
  by (simp add: errors_Join_def)

lemma WrapError_Some: "\<exists>c. WrapError (Some e) = Some c"
  by (simp add: WrapError_def)

lemma WrapError_is_validation_error: "IsValidationError (WrapError (Some e))"
  by (simp add: WrapError_def IsValidationError_def)

lemma WrapError_idem: "WrapError (WrapError err) = WrapError err"
  by (cases err) (simp_all add: WrapError_def IsValidationError_def)

text \<open>
  C6. Wrapping nil gives nil. Wrapping an error that already is a validation error
  gives that error back, so wrapping twice is wrapping once. Wrapping any other
  error gives an error with the same message whose unwrap target is the original
  error. A validation error made from a message alone is a validation error and
  unwraps to nil.
\<close>

theorem WrapError_laws:
  "WrapError None = None
   \<and> (IsValidationError err \<longrightarrow> WrapError err = err)
   \<and> WrapError (WrapError err) = WrapError err
   \<and> (err = Some e \<and> \<not> IsValidationError err \<longrightarrow>
        (\<exists>w. WrapError err = Some w \<and> Error w = Error e \<and> errors_Unwrap (Some w) = Some e))
   \<and> IsValidationError (NewValidationError message)
   \<and> errors_Unwrap (NewValidationError message) = None"
  using WrapError_idem[of err]
  by (cases err) (auto simp: WrapError_def IsValidationError_def NewValidationError_def)

text \<open>
  The cases of the package's own test: a validation error is preserved, and
  \<^verbatim>\<open>errors.New("original error")\<close> is wrapped with its message and unwraps to itself.
\<close>

theorem WrapError_laws_witness:
  "WrapError (Some (VError ''validation error'' None)) = Some (VError ''validation error'' None)
   \<and> (\<exists>w. WrapError (Some (Foreign ''original error'')) = Some w \<and>
          Error w = ''original error'' \<and> errors_Unwrap (Some w) = Some (Foreign ''original error''))"
proof -
  have a: "IsValidationError (Some (VError ''validation error'' None))"
    by (simp add: IsValidationError_def)
  have b: "\<not> IsValidationError (Some (Foreign ''original error''))"
    by (simp add: IsValidationError_def)
  have "WrapError (Some (VError ''validation error'' None)) = Some (VError ''validation error'' None)"
    using WrapError_laws[of "Some (VError ''validation error'' None)"] a by blast
  moreover have "\<exists>w. WrapError (Some (Foreign ''original error'')) = Some w \<and>
          Error w = Error (Foreign ''original error'') \<and> errors_Unwrap (Some w) = Some (Foreign ''original error'')"
    using WrapError_laws[of "Some (Foreign ''original error'')" "Foreign ''original error''"] b by blast
  ultimately show ?thesis by simp
qed

section \<open>The combinators\<close>

lemma Or_loop_prefix:
  "invoke_all (map (\<lambda>validator. validator v) pre) s = (rs, s1) \<Longrightarrow> \<forall>r\<in>set rs. r \<noteq> None \<Longrightarrow>
   Or_loop (pre @ post) v errs s = Or_loop post v (errs @ map the rs) s1"
  by (induction pre arbitrary: s rs errs) (auto split: prod.splits option.splits)

lemma Or_all_fail:
  assumes run: "invoke_all (map (\<lambda>validator. validator v) vs) s = (rs, s')"
    and fail: "\<forall>r\<in>set rs. r \<noteq> None"
  shows "Or_loop vs v [] s = (Some (map the rs), s')"
  using Or_loop_prefix[OF run fail, of "[]" "[]"] by simp

lemma WrapError_FmtWrap:
  "WrapError (Some (FmtWrap m j)) =
     Some (if is_validation_err j then FmtWrap m j else VError m (Some (FmtWrap m j)))"
  by (simp add: WrapError_def IsValidationError_def)

text \<open>
  C2, as the claim states it, fails. Two validators that fail with plain errors:
  \<^verbatim>\<open>Or\<close> returns the validation error that \<^verbatim>\<open>WrapError\<close> makes of the
  \<^verbatim>\<open>fmt.Errorf\<close> error, so the cause of the composite (what \<^verbatim>\<open>errors.Unwrap\<close>
  returns) is that \<^verbatim>\<open>fmt.Errorf\<close> error and not the join of the two failures.
\<close>

theorem Or_cause_counterexample:
  "Or [logged 0 (Some (Foreign ''a'')), logged 1 (Some (Foreign ''b''))] (0::nat) []
     = (Some (VError (''all validators failed: a'' @ [CHR 0x0A] @ ''b'')
               (Some (FmtWrap (''all validators failed: a'' @ [CHR 0x0A] @ ''b'')
                        (Joined [Foreign ''a'', Foreign ''b''])))), [0, 1])
   \<and> errors_Unwrap (fst (Or [logged 0 (Some (Foreign ''a'')), logged 1 (Some (Foreign ''b''))] (0::nat) []))
       = Some (FmtWrap (''all validators failed: a'' @ [CHR 0x0A] @ ''b'')
                 (Joined [Foreign ''a'', Foreign ''b'']))
   \<and> errors_Unwrap (fst (Or [logged 0 (Some (Foreign ''a'')), logged 1 (Some (Foreign ''b''))] (0::nat) []))
       \<noteq> Some (Joined [Foreign ''a'', Foreign ''b''])"
  by (simp add: Or_def logged_def errors_Join_def fmt_Errorf_w_def WrapError_def IsValidationError_def)

text \<open>
  C2, amended. A single validator that fails: \<^verbatim>\<open>Or\<close> returns its error as it is.
  Two or more validators that all fail when invoked one after the other: \<^verbatim>\<open>Or\<close>
  returns \<^verbatim>\<open>WrapError\<close> of the \<^verbatim>\<open>fmt.Errorf\<close> error whose message is
  \<^verbatim>\<open>all validators failed: \<close> followed by the message of the join of the failures
  in input order and whose cause is that join. When one of the failures already is a
  validation error, the composite is that \<^verbatim>\<open>fmt.Errorf\<close> error itself and its cause
  is the join. Otherwise the composite is a validation error of the same message
  whose cause is the \<^verbatim>\<open>fmt.Errorf\<close> error, the join being the cause of that cause.
  A validator that passes after validators that all fail: \<^verbatim>\<open>Or\<close> returns nil in
  the state that validator left, the later ones not invoked.
\<close>

theorem Or_outcomes:
  "(validator v s = (Some e, s') \<longrightarrow> Or [validator] v s = (Some e, s'))
   \<and> (2 \<le> length vs \<and> invoke_all (map (\<lambda>validator. validator v) vs) s = (rs, s') \<and>
        (\<forall>r\<in>set rs. r \<noteq> None)
        \<longrightarrow>
          Or vs v s
            = (WrapError (Some (FmtWrap (''all validators failed: '' @ Error (Joined (map the rs)))
                                  (Joined (map the rs)))), s')
        \<and> errors_Unwrap (Some (FmtWrap (''all validators failed: '' @ Error (Joined (map the rs)))
                                  (Joined (map the rs))))
            = Some (Joined (map the rs))
        \<and> map_option Error (fst (Or vs v s))
            = Some (''all validators failed: '' @ Error (Joined (map the rs)))
        \<and> (IsValidationError (Some (Joined (map the rs))) \<longrightarrow>
             fst (Or vs v s)
               = Some (FmtWrap (''all validators failed: '' @ Error (Joined (map the rs)))
                         (Joined (map the rs))) \<and>
             errors_Unwrap (fst (Or vs v s)) = Some (Joined (map the rs)))
        \<and> (\<not> IsValidationError (Some (Joined (map the rs))) \<longrightarrow>
             fst (Or vs v s)
               = Some (VError (''all validators failed: '' @ Error (Joined (map the rs)))
                         (Some (FmtWrap (''all validators failed: '' @ Error (Joined (map the rs)))
                                  (Joined (map the rs))))) \<and>
             errors_Unwrap (fst (Or vs v s))
               = Some (FmtWrap (''all validators failed: '' @ Error (Joined (map the rs)))
                         (Joined (map the rs))) \<and>
             errors_Unwrap (errors_Unwrap (fst (Or vs v s))) = Some (Joined (map the rs))))
   \<and> (vs = pre @ validator # post \<and>
        invoke_all (map (\<lambda>validator. validator v) pre) s = (rs1, s1) \<and>
        (\<forall>r\<in>set rs1. r \<noteq> None) \<and> validator v s1 = (None, s2)
        \<longrightarrow> Or vs v s = (None, s2))"
proof (intro conjI)
  show "validator v s = (Some e, s') \<longrightarrow> Or [validator] v s = (Some e, s')"
    by (simp add: Or_def)
next
  let ?j = "Joined (map the rs)"
  let ?m = "''all validators failed: '' @ Error ?j"
  show "2 \<le> length vs \<and> invoke_all (map (\<lambda>validator. validator v) vs) s = (rs, s') \<and>
        (\<forall>r\<in>set rs. r \<noteq> None)
        \<longrightarrow>
          Or vs v s = (WrapError (Some (FmtWrap ?m ?j)), s')
        \<and> errors_Unwrap (Some (FmtWrap ?m ?j)) = Some ?j
        \<and> map_option Error (fst (Or vs v s)) = Some ?m
        \<and> (IsValidationError (Some ?j) \<longrightarrow>
             fst (Or vs v s) = Some (FmtWrap ?m ?j) \<and>
             errors_Unwrap (fst (Or vs v s)) = Some ?j)
        \<and> (\<not> IsValidationError (Some ?j) \<longrightarrow>
             fst (Or vs v s) = Some (VError ?m (Some (FmtWrap ?m ?j))) \<and>
             errors_Unwrap (fst (Or vs v s)) = Some (FmtWrap ?m ?j) \<and>
             errors_Unwrap (errors_Unwrap (fst (Or vs v s))) = Some ?j)"
  proof
    assume h: "2 \<le> length vs \<and> invoke_all (map (\<lambda>validator. validator v) vs) s = (rs, s') \<and>
        (\<forall>r\<in>set rs. r \<noteq> None)"
    then have run: "invoke_all (map (\<lambda>validator. validator v) vs) s = (rs, s')"
      and fail: "\<forall>r\<in>set rs. r \<noteq> None" and two: "2 \<le> length vs"
      by simp_all
    have loop: "Or_loop vs v [] s = (Some (map the rs), s')"
      by (rule Or_all_fail[OF run fail])
    have len: "length rs = length vs"
      using invoke_all_length[OF run] by simp
    with two have ne: "map the rs \<noteq> []" and n1: "length (map the rs) \<noteq> 1"
      by auto
    have fmt: "fmt_Errorf_w ''all validators failed: '' (errors_Join (map Some (map the rs)))
                 = FmtWrap ?m ?j"
      using errors_Join_Some[OF ne] by (simp add: fmt_Errorf_w_def)
    have res: "Or vs v s = (WrapError (Some (FmtWrap ?m ?j)), s')"
      using loop n1 fmt by (simp add: Or_def)
    have shape: "fst (Or vs v s)
        = Some (if is_validation_err ?j then FmtWrap ?m ?j else VError ?m (Some (FmtWrap ?m ?j)))"
      unfolding res by (simp only: fst_conv WrapError_FmtWrap)
    have msg: "map_option Error (fst (Or vs v s)) = Some ?m"
      unfolding shape by simp
    have yes: "IsValidationError (Some ?j) \<longrightarrow>
             fst (Or vs v s) = Some (FmtWrap ?m ?j) \<and>
             errors_Unwrap (fst (Or vs v s)) = Some ?j"
      unfolding shape by (simp add: IsValidationError_def)
    have no: "\<not> IsValidationError (Some ?j) \<longrightarrow>
             fst (Or vs v s) = Some (VError ?m (Some (FmtWrap ?m ?j))) \<and>
             errors_Unwrap (fst (Or vs v s)) = Some (FmtWrap ?m ?j) \<and>
             errors_Unwrap (errors_Unwrap (fst (Or vs v s))) = Some ?j"
      unfolding shape by (simp add: IsValidationError_def)
    have unw: "errors_Unwrap (Some (FmtWrap ?m ?j)) = Some ?j" by simp
    from res unw msg yes no show "Or vs v s = (WrapError (Some (FmtWrap ?m ?j)), s')
        \<and> errors_Unwrap (Some (FmtWrap ?m ?j)) = Some ?j
        \<and> map_option Error (fst (Or vs v s)) = Some ?m
        \<and> (IsValidationError (Some ?j) \<longrightarrow>
             fst (Or vs v s) = Some (FmtWrap ?m ?j) \<and>
             errors_Unwrap (fst (Or vs v s)) = Some ?j)
        \<and> (\<not> IsValidationError (Some ?j) \<longrightarrow>
             fst (Or vs v s) = Some (VError ?m (Some (FmtWrap ?m ?j))) \<and>
             errors_Unwrap (fst (Or vs v s)) = Some (FmtWrap ?m ?j) \<and>
             errors_Unwrap (errors_Unwrap (fst (Or vs v s))) = Some ?j)"
      by (intro conjI)
  qed
next
  show "vs = pre @ validator # post \<and>
        invoke_all (map (\<lambda>validator. validator v) pre) s = (rs1, s1) \<and>
        (\<forall>r\<in>set rs1. r \<noteq> None) \<and> validator v s1 = (None, s2)
        \<longrightarrow> Or vs v s = (None, s2)"
  proof
    assume h: "vs = pre @ validator # post \<and>
        invoke_all (map (\<lambda>validator. validator v) pre) s = (rs1, s1) \<and>
        (\<forall>r\<in>set rs1. r \<noteq> None) \<and> validator v s1 = (None, s2)"
    then have "Or_loop vs v [] s = Or_loop (validator # post) v ([] @ map the rs1) s1"
      using Or_loop_prefix[of v pre s rs1 s1 "validator # post" "[]"] by simp
    with h show "Or vs v s = (None, s2)"
      by (simp add: Or_def)
  qed
qed

text \<open>
  One failing validator; two validators failing with plain errors; a plain failure
  and a validation error; a failing validator followed by two that pass, of which the
  call log holds the first only.
\<close>

theorem Or_outcomes_witness:
  "Or [logged 0 (Some (Foreign ''no at sign''))] (0::nat) [] = (Some (Foreign ''no at sign''), [0])
   \<and> errors_Unwrap (errors_Unwrap (fst (Or [logged 0 (Some (Foreign ''a'')),
                                             logged 1 (Some (Foreign ''b''))] (0::nat) [])))
       = Some (Joined [Foreign ''a'', Foreign ''b''])
   \<and> errors_Unwrap (fst (Or [logged 0 (Some (Foreign ''a'')),
                              logged 1 (Some (VError ''b'' None))] (0::nat) []))
       = Some (Joined [Foreign ''a'', VError ''b'' None])
   \<and> Or [logged 0 (Some (Foreign ''a'')), logged 1 None, logged 2 None] (0::nat) [] = (None, [0, 1])"
proof -
  have h1: "logged 0 (Some (Foreign ''no at sign'')) (0::nat) [] = (Some (Foreign ''no at sign''), [0])"
    by (simp add: logged_def)
  have one: "Or [logged 0 (Some (Foreign ''no at sign''))] (0::nat) [] = (Some (Foreign ''no at sign''), [0])"
    by (rule Or_outcomes[THEN conjunct1, THEN mp]) (rule h1)

  let ?two = "[logged 0 (Some (Foreign ''a'')), logged 1 (Some (Foreign ''b''))] :: (nat, nat list) Validator list"
  let ?rs = "[Some (Foreign ''a''), Some (Foreign ''b'')]"
  have h2: "2 \<le> length ?two \<and>
        invoke_all (map (\<lambda>validator. validator (0::nat)) ?two) [] = (?rs, [0, 1]) \<and>
        (\<forall>r\<in>set ?rs. r \<noteq> None)"
    by (simp add: logged_def)
  have plain: "\<not> IsValidationError (Some (Joined (map the ?rs)))"
    by (simp add: IsValidationError_def)
  note all_plain = Or_outcomes[THEN conjunct2, THEN conjunct1, THEN mp, OF h2,
      THEN conjunct2, THEN conjunct2, THEN conjunct2, THEN conjunct2, THEN mp, OF plain,
      THEN conjunct2, THEN conjunct2]
  have two: "errors_Unwrap (errors_Unwrap (fst (Or ?two (0::nat) [])))
       = Some (Joined [Foreign ''a'', Foreign ''b''])"
    using all_plain by simp

  let ?mixed = "[logged 0 (Some (Foreign ''a'')), logged 1 (Some (VError ''b'' None))] :: (nat, nat list) Validator list"
  let ?rs' = "[Some (Foreign ''a''), Some (VError ''b'' None)]"
  have h2': "2 \<le> length ?mixed \<and>
        invoke_all (map (\<lambda>validator. validator (0::nat)) ?mixed) [] = (?rs', [0, 1]) \<and>
        (\<forall>r\<in>set ?rs'. r \<noteq> None)"
    by (simp add: logged_def)
  have already: "IsValidationError (Some (Joined (map the ?rs')))"
    by (simp add: IsValidationError_def)
  note one_wrapped = Or_outcomes[THEN conjunct2, THEN conjunct1, THEN mp, OF h2',
      THEN conjunct2, THEN conjunct2, THEN conjunct2, THEN conjunct1, THEN mp, OF already,
      THEN conjunct2]
  have mixed: "errors_Unwrap (fst (Or ?mixed (0::nat) []))
       = Some (Joined [Foreign ''a'', VError ''b'' None])"
    using one_wrapped by simp

  let ?three = "[logged 0 (Some (Foreign ''a'')), logged 1 None, logged 2 None] :: (nat, nat list) Validator list"
  have h3: "?three = [logged 0 (Some (Foreign ''a''))] @ logged 1 None # [logged 2 None] \<and>
        invoke_all (map (\<lambda>validator. validator (0::nat)) [logged 0 (Some (Foreign ''a''))]) [] = ([Some (Foreign ''a'')], [0]) \<and>
        (\<forall>r\<in>set [Some (Foreign ''a'')]. r \<noteq> None) \<and> logged 1 None (0::nat) [0] = (None, [0, 1])"
    by (simp add: logged_def)
  have three: "Or ?three (0::nat) [] = (None, [0, 1])"
    by (rule Or_outcomes[THEN conjunct2, THEN conjunct2, THEN mp]) (rule h3)
  from one two mixed three show ?thesis by (intro conjI)
qed

text \<open>
  C8. \<^verbatim>\<open>Or\<close> of no validator fails on every input: the loop collects nothing,
  \<^verbatim>\<open>errors.Join\<close> of nothing is nil, and the formatted error is wrapped.
\<close>

theorem Or_no_validators: "fst (Or [] v s) \<noteq> None \<and> snd (Or [] v s) = s"
  using WrapError_Some[of "fmt_Errorf_w ''all validators failed: '' (errors_Join (map Some []))"]
  by (auto simp: Or_def)

theorem Or_no_validators_witness:
  "fst (Or [] (''anything'') (0::nat)) \<noteq> None \<and> snd (Or [] (''anything'') (0::nat)) = 0"
  using Or_no_validators[of "''anything''" "0::nat"] by simp

text \<open>
  C9. \<^verbatim>\<open>Not(Not(v))\<close> returns no error exactly when \<^verbatim>\<open>v\<close> returns none, and
  invokes \<^verbatim>\<open>v\<close> once.
\<close>

theorem Not_Not_outcome:
  "(fst (Not (Not validator) v s) = None \<longleftrightarrow> fst (validator v s) = None)
   \<and> snd (Not (Not validator) v s) = snd (validator v s)"
  by (auto simp: Not_def NewValidationError_def split: prod.splits option.splits)

theorem Not_Not_outcome_witness:
  "fst (Not (Not (logged 0 (Some (Foreign ''bad'')))) (1::nat) []) \<noteq> None
   \<and> fst (Not (Not (logged 0 None)) (1::nat) []) = None
   \<and> snd (Not (Not (logged 0 None)) (1::nat) []) = [0]"
  using Not_Not_outcome[of "logged 0 (Some (Foreign ''bad''))" "1::nat" "[]"]
        Not_Not_outcome[of "logged 0 None" "1::nat" "[]"]
  by (simp add: logged_def)

text \<open>
  C10. When the wrapped validator fails, \<^verbatim>\<open>WithMessage\<close> returns the validation
  error made from the custom message alone, whatever the validator's error was: its
  message is the custom message, it has no unwrap target, and the validator's error
  is not among the errors that unwrapping reaches.
\<close>

theorem WithMessage_discards:
  "validator v s = (Some e, s') \<longrightarrow>
     WithMessage validator message v s = (Some (VError message None), s')
     \<and> IsValidationError (Some (VError message None))
     \<and> Error (VError message None) = message
     \<and> errors_Unwrap (Some (VError message None)) = None
     \<and> e \<notin> set (causes (VError message None))"
  by (simp add: WithMessage_def NewValidationError_def IsValidationError_def)

theorem WithMessage_discards_witness:
  "WithMessage (logged 0 (Some (Foreign ''required''))) ''count cannot be zero'' (0::nat) []
     = (Some (VError ''count cannot be zero'' None), [0])
   \<and> errors_Unwrap (Some (VError ''count cannot be zero'' None)) = None"
  using WithMessage_discards[of "logged 0 (Some (Foreign ''required''))" "0::nat" "[]" "Foreign ''required''" "[0]" "''count cannot be zero''"]
  by (simp add: logged_def)

section \<open>Per-element aggregation\<close>

lemma Each_loop_tagged:
  "invoke_all (map ev values) s = (rs, s') \<Longrightarrow>
   Each_loop ev i values errs s = (errs @ tagged_failures i rs, s')"
proof (induction "values" arbitrary: s rs i errs)
  case Nil
  then show ?case by simp
next
  case (Cons x xs)
  obtain r s1 where x: "ev x s = (r, s1)" by (cases "ev x s")
  obtain rs1 s2 where xs: "invoke_all (map ev xs) s1 = (rs1, s2)" by (cases "invoke_all (map ev xs) s1")
  from Cons.prems x xs have rs: "rs = r # rs1" and s': "s2 = s'" by simp_all
  show ?case
    using Cons.IH[OF xs[unfolded s']] x rs
    by (cases r) (simp_all add: index_error_def fmt_Errorf_w_def)
qed

lemma tagged_failures_upt:
  "tagged_failures i rs =
   List.map_filter id (map (\<lambda>k. map_option (index_error (i + k)) (rs ! k)) [0..<length rs])"
proof (induction rs arbitrary: i)
  case Nil
  then show ?case by simp
next
  case (Cons r rs)
  have shift: "map (\<lambda>k. map_option (index_error (i + k)) ((r # rs) ! k)) [0..<length (r # rs)]
        = map_option (index_error i) r # map (\<lambda>k. map_option (index_error (Suc i + k)) (rs ! k)) [0..<length rs]"
    by (simp add: upt_conv_Cons map_Suc_upt[symmetric] del: upt_Suc)
  show ?case
    unfolding shift using Cons.IH[of "Suc i"] by (cases r) simp_all
qed

lemma tagged_failures_Nil_iff: "tagged_failures i rs = [] \<longleftrightarrow> (\<forall>r\<in>set rs. r = None)"
  by (induction i rs rule: tagged_failures.induct) simp_all

lemma errors_Join_filter: "errors_Join rs = errors_Join (map Some (List.map_filter id rs))"
  by (simp add: errors_Join_def map_filter_Some)

lemma errors_Join_None_iff: "errors_Join (map Some es) = None \<longleftrightarrow> es = []"
  by (cases es) (simp_all add: errors_Join_def map_filter_Some[of "_ # _", simplified])

text \<open>
  C4. With the element validator invoked on every element in order, whatever the
  earlier results: \<^verbatim>\<open>Each\<close> ends in the state those invocations leave, and
  returns the join, over the indices from zero, of each element's failure tagged with
  its index (nothing for an element that passes). It returns no error if and only if
  every element passes: the join of no failure is nil.
\<close>

theorem Each_collects:
  "invoke_all (map elementValidator values) s = (rs, s') \<longrightarrow>
     Each elementValidator values s
       = (errors_Join (map (\<lambda>i. map_option (index_error i) (rs ! i)) [0..<length values]), s')
     \<and> (fst (Each elementValidator values s) = None \<longleftrightarrow> (\<forall>r\<in>set rs. r = None))"
proof
  assume run: "invoke_all (map elementValidator values) s = (rs, s')"
  have len: "length rs = length values"
    using invoke_all_length[OF run] by simp
  have each: "Each elementValidator values s = (errors_Join (map Some (tagged_failures 0 rs)), s')"
    using Each_loop_tagged[OF run, of 0 "[]"] by (simp add: Each_def)
  have "errors_Join (map Some (tagged_failures 0 rs))
        = errors_Join (map (\<lambda>i. map_option (index_error i) (rs ! i)) [0..<length values])"
    using errors_Join_filter[of "map (\<lambda>i. map_option (index_error i) (rs ! i)) [0..<length values]"]
          tagged_failures_upt[of 0 rs] len by simp
  with each have a: "Each elementValidator values s
       = (errors_Join (map (\<lambda>i. map_option (index_error i) (rs ! i)) [0..<length values]), s')"
    by simp
  have b: "fst (Each elementValidator values s) = None \<longleftrightarrow> (\<forall>r\<in>set rs. r = None)"
    using each errors_Join_None_iff[of "tagged_failures 0 rs"] tagged_failures_Nil_iff[of 0 rs] by simp
  from a b show "Each elementValidator values s
       = (errors_Join (map (\<lambda>i. map_option (index_error i) (rs ! i)) [0..<length values]), s')
     \<and> (fst (Each elementValidator values s) = None \<longleftrightarrow> (\<forall>r\<in>set rs. r = None))"
    by (rule conjI)
qed

text \<open>
  The package's own test case: of \<^verbatim>\<open>"test", "ab", "test3"\<close> only the element at
  index 1 is too short, and all three elements are checked.
\<close>

theorem Each_collects_witness:
  "Each too_short [''test'', ''ab'', ''test3''] 0
     = (Some (Joined [FmtWrap ''index 1: must be at least 3 characters''
                        (Foreign ''must be at least 3 characters'')]), 3)
   \<and> Each too_short [''test1'', ''test2''] 0 = (None, 2)"
proof -
  have run1: "invoke_all (map too_short [''test'', ''ab'', ''test3'']) 0
               = ([None, Some (Foreign ''must be at least 3 characters''), None], 3)"
    by (simp add: too_short_def)
  have run2: "invoke_all (map too_short [''test1'', ''test2'']) 0 = ([None, None], 2)"
    by (simp add: too_short_def)
  have one: "Each too_short [''test'', ''ab'', ''test3''] 0
     = (errors_Join (map (\<lambda>i. map_option (index_error i)
          ([None, Some (Foreign ''must be at least 3 characters''), None] ! i))
          [0..<length [''test'', ''ab'', ''test3'']]), 3)"
    by (rule Each_collects[THEN mp, THEN conjunct1]) (rule run1)
  have two: "Each too_short [''test1'', ''test2''] 0
     = (errors_Join (map (\<lambda>i. map_option (index_error i) ([None, None] ! i))
          [0..<length [''test1'', ''test2'']]), 2)"
    by (rule Each_collects[THEN mp, THEN conjunct1]) (rule run2)
  have three: "[0..<3] = [0, 1, 2]" "[0..<2] = [0, 1]"
    by (simp_all add: upt_rec)
  have idx: "show_nat (Suc 0) = ''1''"
    by (subst show_nat.simps) simp
  show ?thesis
    unfolding one two
    by (simp add: three errors_Join_def index_error_def idx)
qed

section \<open>Keyed maps: the contract\<close>

lemma key_validators_loop_Validate:
  "key_validators_loop quote k val vs s =
     (case Validate val vs s of
        (None, s') \<Rightarrow> (None, s')
      | (Some e, s') \<Rightarrow> (Some (FmtWrap (''key '' @ quote k @ '': '' @ Error e) e), s'))"
  by (induction vs arbitrary: s) (auto simp: fmt_Errorf_w_def split: prod.splits option.splits)

lemma rules_loop_step:
  "rules_loop quote m (rule # rules) validated s =
     (case check_rule quote m rule s of
        (Some e, s') \<Rightarrow> (Some e, validated(key rule := True), s')
      | (None, s') \<Rightarrow> rules_loop quote m rules (validated(key rule := True)) s')"
  by (auto simp: check_rule_def key_validators_loop_Validate Let_def
           split: prod.splits option.splits)

lemma rules_loop_prefix:
  "invoke_all (map (check_rule quote m) pre) s = (rs, s1) \<Longrightarrow> \<forall>r\<in>set rs. r = None \<Longrightarrow>
   rules_loop quote m (pre @ post) validated s
     = rules_loop quote m post (\<lambda>k. validated k \<or> k \<in> key ` set pre) s1"
proof (induction pre arbitrary: s rs validated)
  case Nil
  then show ?case by simp
next
  case (Cons rule pre)
  obtain r s0 where r: "check_rule quote m rule s = (r, s0)" by (cases "check_rule quote m rule s")
  obtain rs0 s2 where run: "invoke_all (map (check_rule quote m) pre) s0 = (rs0, s2)"
    by (cases "invoke_all (map (check_rule quote m) pre) s0")
  from Cons.prems r run have rs: "rs = r # rs0" and s2: "s2 = s1" by simp_all
  with Cons.prems have rN: "r = None" and rest: "\<forall>r\<in>set rs0. r = None" by simp_all
  have upd: "(\<lambda>k. (validated(key rule := True)) k \<or> k \<in> key ` set pre)
             = (\<lambda>k. validated k \<or> k \<in> key ` set (rule # pre))"
    by (rule ext) auto
  have "rules_loop quote m ((rule # pre) @ post) validated s
          = rules_loop quote m (pre @ post) (validated(key rule := True)) s0"
    using r rN by (simp add: rules_loop_step del: rules_loop.simps)
  also have "\<dots> = rules_loop quote m post (\<lambda>k. (validated(key rule := True)) k \<or> k \<in> key ` set pre) s1"
    using Cons.IH[OF run[unfolded s2] rest] .
  finally show ?case unfolding upd .
qed

lemma extra_keys_loop_None:
  "(\<forall>k\<in>set ks. validated k) \<Longrightarrow> extra_keys_loop quote ks validated = None"
  by (induction ks) simp_all

lemma extra_keys_loop_Some:
  "\<not> (\<forall>k\<in>set ks. validated k) \<Longrightarrow>
   \<exists>k. k \<in> set ks \<and> \<not> validated k \<and>
       extra_keys_loop quote ks validated = Some (Foreign (''key '' @ quote k @ '' not expected''))"
  by (induction ks) auto

lemma keyed_map_contract_body:
  fixes validate_map ::
    "(string \<Rightarrow> string) \<Rightarrow> (string \<times> 'v) list \<Rightarrow> bool \<Rightarrow> ('v, 's) MapKeyRule list \<Rightarrow>
     's \<Rightarrow> error \<times> 's"
  assumes body: "\<And>quote m allowExtra rules s.
     validate_map quote m allowExtra rules s =
       (case rules_loop quote m rules (\<lambda>k. False) s of
          (Some e, validated, s') \<Rightarrow> (Some e, s')
        | (None, validated, s') \<Rightarrow>
            if \<not> allowExtra then (extra_keys_loop quote (map fst m) validated, s')
            else (None, s'))"
  shows "keyed_map_contract validate_map"
  unfolding keyed_map_contract_def
proof (intro allI conjI impI; (elim conjE)?)
  fix quote and m :: "(string \<times> 'v) list" and allowExtra
    and rules :: "('v, 's) MapKeyRule list" and s :: 's and pre rule post rs s1
  assume split: "rules = pre @ rule # post"
    and run: "invoke_all (map (check_rule quote m) pre) s = (rs, s1)"
    and pass: "\<forall>r\<in>set rs. r = None"
    and absent: "map_of m (key rule) = None" and req: "required rule"
  have "rules_loop quote m rules (\<lambda>k. False) s
          = rules_loop quote m (rule # post) (\<lambda>k. False \<or> k \<in> key ` set pre) s1"
    unfolding split by (rule rules_loop_prefix[OF run pass])
  also have "\<dots> = (Some (Foreign (''key '' @ quote (key rule) @ '' is required'')),
                    (\<lambda>k. False \<or> k \<in> key ` set pre)(key rule := True), s1)"
    using absent req by (simp add: rules_loop_step check_rule_def del: rules_loop.simps)
  finally show "validate_map quote m allowExtra rules s
                  = (Some (Foreign (''key '' @ quote (key rule) @ '' is required'')), s1)"
    by (simp add: body)
next
  fix quote and m :: "(string \<times> 'v) list" and allowExtra
    and rules :: "('v, 's) MapKeyRule list" and s :: 's and pre rule post rs s1 val e s2
  assume split: "rules = pre @ rule # post"
    and run: "invoke_all (map (check_rule quote m) pre) s = (rs, s1)"
    and pass: "\<forall>r\<in>set rs. r = None"
    and present: "map_of m (key rule) = Some val"
    and fails: "Validate val (validators rule) s1 = (Some e, s2)"
  have "rules_loop quote m rules (\<lambda>k. False) s
          = rules_loop quote m (rule # post) (\<lambda>k. False \<or> k \<in> key ` set pre) s1"
    unfolding split by (rule rules_loop_prefix[OF run pass])
  also have "\<dots> = (Some (FmtWrap (''key '' @ quote (key rule) @ '': '' @ Error e) e),
                    (\<lambda>k. False \<or> k \<in> key ` set pre)(key rule := True), s2)"
    using present fails by (simp add: rules_loop_step check_rule_def del: rules_loop.simps)
  finally show "validate_map quote m allowExtra rules s
                  = (Some (FmtWrap (''key '' @ quote (key rule) @ '': '' @ Error e) e), s2)"
    by (simp add: body)
next
  fix quote and m :: "(string \<times> 'v) list" and allowExtra
    and rules :: "('v, 's) MapKeyRule list" and s :: 's and rs s'
  assume run: "invoke_all (map (check_rule quote m) rules) s = (rs, s')"
    and pass: "\<forall>r\<in>set rs. r = None"
  have loop: "rules_loop quote m rules (\<lambda>k. False) s = (None, (\<lambda>k. False \<or> k \<in> key ` set rules), s')"
    using rules_loop_prefix[OF run pass, of "[]" "\<lambda>k. False"] by simp
  show "snd (validate_map quote m allowExtra rules s) = s'"
    by (simp add: body loop)
  show "fst (validate_map quote m allowExtra rules s) = None"
    if "allowExtra \<or> fst ` set m \<subseteq> key ` set rules"
  proof (cases allowExtra)
    case True
    then show ?thesis by (simp add: body loop)
  next
    case False
    with that have "\<forall>k\<in>set (map fst m). False \<or> k \<in> key ` set rules" by auto
    then have "extra_keys_loop quote (map fst m) (\<lambda>k. False \<or> k \<in> key ` set rules) = None"
      by (rule extra_keys_loop_None)
    with False show ?thesis by (simp add: body loop)
  qed
  show "\<exists>k. k \<in> fst ` set m \<and> k \<notin> key ` set rules \<and>
           fst (validate_map quote m allowExtra rules s)
             = Some (Foreign (''key '' @ quote k @ '' not expected''))"
    if "\<not> allowExtra" and "\<not> fst ` set m \<subseteq> key ` set rules"
  proof -
    from that(2) have "\<not> (\<forall>k\<in>set (map fst m). False \<or> k \<in> key ` set rules)" by auto
    then obtain k where "k \<in> set (map fst m)" "\<not> (False \<or> k \<in> key ` set rules)"
      "extra_keys_loop quote (map fst m) (\<lambda>k. False \<or> k \<in> key ` set rules)
         = Some (Foreign (''key '' @ quote k @ '' not expected''))"
      using extra_keys_loop_Some[of "map fst m" "\<lambda>k. False \<or> k \<in> key ` set rules" quote] by blast
    with that(1) show ?thesis by (auto simp: body loop)
  qed
qed

text \<open>
  C3. \<^verbatim>\<open>ValidateStringMap\<close> and \<^verbatim>\<open>ValidateAnyMap\<close> both meet the contract of a
  keyed-map validator: a required key that is absent fails at once with the error
  naming it, a key that is present fails with the first failure of its validators
  behind the key's name, and only when all rules pass are extra keys looked for.
\<close>

theorem map_validators_short_circuit:
  "keyed_map_contract ValidateStringMap \<and> keyed_map_contract ValidateAnyMap"
  by (intro conjI keyed_map_contract_body) (simp_all add: ValidateStringMap_def ValidateAnyMap_def)


text \<open>
  The scenarios of the spec: a required key that is missing; an extra key with extra
  keys disallowed; an optional key that is missing; and a dynamically typed map whose
  second validator of three fails, the third never invoked.
\<close>

theorem map_validators_short_circuit_witness:
  "ValidateStringMap quote_ascii [(''age'', ''30'')] True
       [MapKey ''name'' True [too_short], MapKey ''age'' False []] 0
     = (Some (Foreign (''key '' @ quote_ascii ''name'' @ '' is required'')), 0)
   \<and> fst (ValidateStringMap quote_ascii [(''name'', ''John''), (''age'', ''30''), (''extra'', ''y'')] False
       [MapKey ''name'' True [too_short], MapKey ''age'' False []] 0)
     = Some (Foreign (''key '' @ quote_ascii ''extra'' @ '' not expected''))
   \<and> fst (ValidateStringMap quote_ascii [(''name'', ''John'')] False
       [MapKey ''name'' True [too_short], MapKey ''age'' False []] 0) = None
   \<and> ValidateAnyMap quote_ascii [(''age'', AnyInt 150)] True
       [MapKey ''age'' True [logged 0 None, logged 1 (Some (Foreign ''must be between 0 and 120'')),
                             logged 2 None]] []
     = (Some (FmtWrap (''key '' @ quote_ascii ''age'' @ '': must be between 0 and 120'')
                (Foreign ''must be between 0 and 120'')), [0, 1])"
proof -
  let ?name = "MapKey ''name'' True [too_short] :: (string, nat) MapKeyRule"
  let ?age = "MapKey ''age'' False [] :: (string, nat) MapKeyRule"
  let ?rules = "[?name, ?age]"
  note str = map_validators_short_circuit[THEN conjunct1, unfolded keyed_map_contract_def]
  note dyn = map_validators_short_circuit[THEN conjunct2, unfolded keyed_map_contract_def]

  let ?m1 = "[(''age'', ''30'')]"
  note c1 = str[THEN spec[where x = quote_ascii], THEN spec[where x = ?m1],
      THEN spec[where x = True], THEN spec[where x = ?rules], THEN spec[where x = "0::nat"],
      THEN conjunct1, THEN spec[where x = "[]"], THEN spec[where x = ?name],
      THEN spec[where x = "[?age]"], THEN spec[where x = "[]"], THEN spec[where x = "0::nat"],
      THEN mp, THEN conjunct1, THEN mp]
  have one: "ValidateStringMap quote_ascii ?m1 True ?rules 0
     = (Some (Foreign (''key '' @ quote_ascii (key ?name) @ '' is required'')), 0)"
    by (rule c1) (simp_all add: MapKey_def)

  let ?m2 = "[(''name'', ''John''), (''age'', ''30''), (''extra'', ''y'')]"
  have run2: "invoke_all (map (check_rule quote_ascii ?m2) ?rules) 0 = ([None, None], 1) \<and>
              (\<forall>r\<in>set [None :: error, None]. r = None)"
    by (simp add: check_rule_def MapKey_def too_short_def)
  note c2 = str[THEN spec[where x = quote_ascii], THEN spec[where x = ?m2],
      THEN spec[where x = False], THEN spec[where x = ?rules], THEN spec[where x = "0::nat"],
      THEN conjunct2, THEN spec[where x = "[None, None]"], THEN spec[where x = "1::nat"],
      THEN mp, OF run2, THEN conjunct2, THEN conjunct2, THEN mp]
  have "\<exists>k. k \<in> fst ` set ?m2 \<and> k \<notin> key ` set ?rules \<and>
          fst (ValidateStringMap quote_ascii ?m2 False ?rules 0)
            = Some (Foreign (''key '' @ quote_ascii k @ '' not expected''))"
    by (rule c2) (simp add: MapKey_def)
  then have two: "fst (ValidateStringMap quote_ascii ?m2 False ?rules 0)
            = Some (Foreign (''key '' @ quote_ascii ''extra'' @ '' not expected''))"
    by (auto simp: MapKey_def)

  let ?m3 = "[(''name'', ''John'')]"
  have run3: "invoke_all (map (check_rule quote_ascii ?m3) ?rules) 0 = ([None, None], 1) \<and>
              (\<forall>r\<in>set [None :: error, None]. r = None)"
    by (simp add: check_rule_def MapKey_def too_short_def)
  note c3 = str[THEN spec[where x = quote_ascii], THEN spec[where x = ?m3],
      THEN spec[where x = False], THEN spec[where x = ?rules], THEN spec[where x = "0::nat"],
      THEN conjunct2, THEN spec[where x = "[None, None]"], THEN spec[where x = "1::nat"],
      THEN mp, OF run3, THEN conjunct2, THEN conjunct1, THEN mp]
  have three: "fst (ValidateStringMap quote_ascii ?m3 False ?rules 0) = None"
    by (rule c3) (simp add: MapKey_def)

  let ?vs = "[logged 0 None, logged 1 (Some (Foreign ''must be between 0 and 120'')), logged 2 None]
               :: (any, nat list) Validator list"
  let ?rule = "MapKey ''age'' True ?vs"
  let ?m4 = "[(''age'', AnyInt 150)]"
  note c4 = dyn[THEN spec[where x = quote_ascii], THEN spec[where x = ?m4],
      THEN spec[where x = True], THEN spec[where x = "[?rule]"], THEN spec[where x = "[] :: nat list"],
      THEN conjunct1, THEN spec[where x = "[]"], THEN spec[where x = ?rule],
      THEN spec[where x = "[]"], THEN spec[where x = "[]"], THEN spec[where x = "[] :: nat list"],
      THEN mp, THEN conjunct2, THEN spec[where x = "AnyInt 150"],
      THEN spec[where x = "Foreign ''must be between 0 and 120''"], THEN spec[where x = "[0, 1]"],
      THEN mp]
  have four: "ValidateAnyMap quote_ascii ?m4 True [?rule] []
     = (Some (FmtWrap (''key '' @ quote_ascii (key ?rule) @ '': '' @ Error (Foreign ''must be between 0 and 120''))
                (Foreign ''must be between 0 and 120'')), [0, 1])"
    by (rule c4) (simp_all add: MapKey_def logged_def)

  from one two three four show ?thesis
    by (simp add: MapKey_def)
qed

section \<open>The type-adaptation shims\<close>

text \<open>
  C5, as the claim states it, fails: a \<^verbatim>\<open>float32\<close> holding 30 is a number that
  narrows to an integer, and \<^verbatim>\<open>FloatValidator\<close> delegates it, but
  \<^verbatim>\<open>IntValidator\<close> answers "must be a number" without delegating.
\<close>

theorem IntValidator_float32_counterexample:
  "spec_narrows_to_int (AnyFloat32 0x41F00000)
   \<and> IntValidator example_conversions (logged 0 None) (AnyFloat32 0x41F00000) []
       = (Some (Foreign ''must be a number''), [])
   \<and> FloatValidator example_conversions (logged 0 None) (AnyFloat32 0x41F00000) [] = (None, [0])"
  by (simp add: spec_narrows_to_int_def IntValidator_def FloatValidator_def logged_def)

text \<open>
  C5, amended. Each shim delegates exactly when the dynamic type of the value is one
  that its type assertion or type switch names: \<^verbatim>\<open>string\<close> for
  \<^verbatim>\<open>StringValidator\<close>; \<^verbatim>\<open>int\<close>, \<^verbatim>\<open>float64\<close> and \<^verbatim>\<open>int64\<close> for
  \<^verbatim>\<open>IntValidator\<close>; \<^verbatim>\<open>float64\<close>, \<^verbatim>\<open>float32\<close>, \<^verbatim>\<open>int\<close> and
  \<^verbatim>\<open>int64\<close> for \<^verbatim>\<open>FloatValidator\<close>; \<^verbatim>\<open>bool\<close> for \<^verbatim>\<open>BoolValidator\<close>.
  The value is converted to the target type and the wrapped validator's result is
  returned. On nil and on a value of any other dynamic type the shim returns "must be
  a string", "must be a number" or "must be a boolean" and leaves the state as it
  was: the wrapped validator is not invoked.
\<close>

theorem shims_dispatch:
  "StringValidator sv (AnyString str) s = sv str s
   \<and> ((\<forall>x. v \<noteq> AnyString x) \<longrightarrow> StringValidator sv v s = (Some (Foreign ''must be a string''), s))
   \<and> IntValidator cv iv (AnyInt n) s = iv n s
   \<and> IntValidator cv iv (AnyFloat64 f) s = iv (int_of_float64 cv f) s
   \<and> IntValidator cv iv (AnyInt64 n) s = iv n s
   \<and> ((\<forall>x. v \<noteq> AnyInt x) \<and> (\<forall>x. v \<noteq> AnyFloat64 x) \<and> (\<forall>x. v \<noteq> AnyInt64 x) \<longrightarrow>
        IntValidator cv iv v s = (Some (Foreign ''must be a number''), s))
   \<and> FloatValidator cv fv (AnyFloat64 f) s = fv f s
   \<and> FloatValidator cv fv (AnyFloat32 g) s = fv (float64_of_float32 cv g) s
   \<and> FloatValidator cv fv (AnyInt n) s = fv (float64_of_int cv n) s
   \<and> FloatValidator cv fv (AnyInt64 n) s = fv (float64_of_int cv n) s
   \<and> ((\<forall>x. v \<noteq> AnyFloat64 x) \<and> (\<forall>x. v \<noteq> AnyFloat32 x) \<and> (\<forall>x. v \<noteq> AnyInt x) \<and>
        (\<forall>x. v \<noteq> AnyInt64 x) \<longrightarrow>
        FloatValidator cv fv v s = (Some (Foreign ''must be a number''), s))
   \<and> BoolValidator bv (AnyBool b) s = bv b s
   \<and> ((\<forall>x. v \<noteq> AnyBool x) \<longrightarrow> BoolValidator bv v s = (Some (Foreign ''must be a boolean''), s))"
  by (cases v) (auto simp: StringValidator_def IntValidator_def FloatValidator_def BoolValidator_def)

text \<open>
  Nil through each shim; a \<^verbatim>\<open>float64\<close> holding 30 and an \<^verbatim>\<open>int\<close> holding 150
  through \<^verbatim>\<open>IntValidator\<close>.
\<close>

theorem shims_dispatch_witness:
  "StringValidator (logged 0 None) AnyNil [] = (Some (Foreign ''must be a string''), [])
   \<and> IntValidator example_conversions at_most_120 AnyNil [] = (Some (Foreign ''must be a number''), [])
   \<and> FloatValidator example_conversions (logged 0 None) AnyNil [] = (Some (Foreign ''must be a number''), [])
   \<and> BoolValidator (logged 0 None) AnyNil [] = (Some (Foreign ''must be a boolean''), [])
   \<and> IntValidator example_conversions at_most_120 (AnyFloat64 0x403E000000000000) [] = (None, [0])
   \<and> IntValidator example_conversions at_most_120 (AnyInt 150) []
       = (Some (Foreign ''must be between 0 and 120''), [0])"
  using shims_dispatch[of "logged 0 None" _ "[]" AnyNil example_conversions at_most_120 150
          "0x403E000000000000" "logged 0 None" _ "logged 0 None" _]
  by (simp add: example_conversions_def at_most_120_def)

section \<open>Which errors are validation errors\<close>

text \<open>
  The error that \<^verbatim>\<open>Or\<close> builds when its loop ends with no or several failures
  has gone through \<^verbatim>\<open>WrapError\<close> and is a validation error.
\<close>

lemma Or_aggregate_is_validation_error:
  "Or_loop vs v [] s = (Some errs, s') \<Longrightarrow> length errs \<noteq> 1 \<Longrightarrow>
   IsValidationError (fst (Or vs v s))"
  by (simp add: Or_def WrapError_is_validation_error)

text \<open>
  C7. The errors of the map validators are built with \<^verbatim>\<open>fmt.Errorf\<close> alone. With
  the rule \<^verbatim>\<open>MapKey("name", true, Required[string]())\<close>: on the empty map the
  "is required" error is a plain error; on \<^verbatim>\<open>{"name": ""}\<close> the per-key error
  wraps the plain error of \<^verbatim>\<open>Required\<close>; and the "not expected" error for an extra
  key is plain as well. None of them is a validation error.
\<close>

theorem map_errors_not_validation_errors:
  "ValidateStringMap quote_ascii [] True [MapKey ''name'' True [Required '''']] (0::nat)
     = (Some (Foreign (''key '' @ quote_ascii ''name'' @ '' is required'')), 0)
   \<and> \<not> IsValidationError (fst (ValidateStringMap quote_ascii [] True
        [MapKey ''name'' True [Required '''']] (0::nat)))
   \<and> ValidateStringMap quote_ascii [(''name'', '''')] True [MapKey ''name'' True [Required '''']] (0::nat)
     = (Some (FmtWrap (''key '' @ quote_ascii ''name'' @ '': required'') (Foreign ''required'')), 0)
   \<and> \<not> IsValidationError (fst (ValidateStringMap quote_ascii [(''name'', '''')] True
        [MapKey ''name'' True [Required '''']] (0::nat)))
   \<and> \<not> IsValidationError (fst (ValidateAnyMap quote_ascii [(''extra'', AnyNil)] False [] (0::nat)))"
  by (simp add: ValidateStringMap_def ValidateAnyMap_def MapKey_def Required_def
        IsValidationError_def fmt_Errorf_w_def)

end
